theory Spec2Isabelle
  imports Complex_Main "HOL-Library.Word" "HOL-Library.Sublist"
begin

section \<open>Strings of the host language\<close>

text \<open>
  A JavaScript string is a sequence of 16-bit code units. String literals of the source
  are all ASCII; \<open>js\<close> turns an ASCII literal into its code units.
\<close>

type_synonym jschar = "16 word"
type_synonym jsstring = "jschar list"

definition js :: "string \<Rightarrow> jsstring" where
  "js s = map (\<lambda>c. of_nat (of_char c)) s"

text \<open>
  \<open>String.prototype.trim\<close> removes WhiteSpace and LineTerminator code units from both
  ends: TAB, LF, VT, FF, CR, SP, NBSP, U+1680, U+2000 to U+200A, U+2028, U+2029, U+202F,
  U+205F, U+3000 and U+FEFF.
\<close>

definition isWhiteSpace :: "jschar \<Rightarrow> bool" where
  "isWhiteSpace c \<longleftrightarrow>
     c = 0x9 \<or> c = 0xA \<or> c = 0xB \<or> c = 0xC \<or> c = 0xD \<or> c = 0x20 \<or> c = 0xA0 \<or>
     c = 0x1680 \<or> (0x2000 \<le> c \<and> c \<le> 0x200A) \<or> c = 0x2028 \<or> c = 0x2029 \<or>
     c = 0x202F \<or> c = 0x205F \<or> c = 0x3000 \<or> c = 0xFEFF"

definition trim :: "jsstring \<Rightarrow> jsstring" where
  "trim s = rev (dropWhile isWhiteSpace (rev (dropWhile isWhiteSpace s)))"

text \<open>
  \<open>Number.prototype.toString\<close> on a non-negative integer below \<open>10^21\<close> (every value of
  \<open>Date.now()\<close> is one) gives its decimal digits.
\<close>

definition digitChar :: "nat \<Rightarrow> jschar" where
  "digitChar d = of_nat (48 + d)"

fun toString :: "nat \<Rightarrow> jsstring" where
  "toString n = (if n < 10 then [digitChar n] else toString (n div 10) @ [digitChar (n mod 10)])"

declare toString.simps [simp del]

subsection \<open>The image-intent pattern\<close>

text \<open>
  The source tests \<^verbatim>\<open>/generate|visualize|create|show me/i\<close>: an unanchored alternation of
  four literals, compared case-insensitively. Without the \<^verbatim>\<open>u\<close> flag a code unit
  outside ASCII never canonicalises to an ASCII one, so against these ASCII literals the
  comparison is equality after upper-casing \<open>a\<close> to \<open>z\<close>.
\<close>

definition canonicalize :: "jschar \<Rightarrow> jschar" where
  "canonicalize c = (if 0x61 \<le> c \<and> c \<le> 0x7A then c - 0x20 else c)"

fun matchesAt :: "jsstring \<Rightarrow> jsstring \<Rightarrow> bool" where
  "matchesAt [] t = True"
| "matchesAt (p # ps) [] = False"
| "matchesAt (p # ps) (c # cs) = (canonicalize p = canonicalize c \<and> matchesAt ps cs)"

fun regexTest :: "jsstring list \<Rightarrow> jsstring \<Rightarrow> bool" where
  "regexTest alts [] = list_ex (\<lambda>p. matchesAt p []) alts"
| "regexTest alts (c # cs) = (list_ex (\<lambda>p. matchesAt p (c # cs)) alts \<or> regexTest alts cs)"

definition isImageReq :: "jsstring \<Rightarrow> bool" where
  "isImageReq textToSend =
     regexTest [js ''generate'', js ''visualize'', js ''create'', js ''show me''] textToSend"

section \<open>Data model (types.ts)\<close>

datatype emotion = Neutral | Happy | Concerned | Thinking

datatype role = User | Leo

record message =
  id_msg :: jsstring
  role :: role
  text_msg :: jsstring
  timestamp :: nat
  sources :: "(jsstring \<times> jsstring) list option"
  isSearching :: "bool option"
  imageUrl :: "jsstring option"

record leoState =
  emotion :: emotion
  isSpeaking :: bool
  isThinking :: bool
  isLive :: bool

section \<open>Application state and its environment (App.tsx)\<close>

text \<open>
  The React state of the component: what \<open>useState\<close> holds. A handler reads the values
  its render captured (the closure) and writes through the setters, whose functional
  updaters receive the state current at that moment; the two are kept apart below.
\<close>

record app =
  messages :: "message list"
  input :: jsstring
  leoState :: leoState

text \<open>The role-tagged history entry built for the chat request: \<open>{role, parts: [{text}]}\<close>.\<close>

datatype chat_role = RoleModel | RoleUser

datatype content = Content chat_role "jsstring list"

text \<open>
  Calls to collaborators outside the component, logged in program order. \<open>ConsoleError\<close>
  carries the label the source passes before the error object, empty when it passes none.
\<close>

datatype call =
    ConsoleError jsstring
  | GenerateLeoImage jsstring
  | ChatWithLeoStream jsstring "content list"
  | GetGeminiClient
  | GetUserMedia
  | LiveConnect
  | Reload

text \<open>
  The whole mutable world of the component: the React state, the \<open>useRef\<close> cells, the
  playback API's view of the buffer sources (source \<open>k\<close> is the \<open>k\<close>-th one created; each
  is started as soon as it is created, at \<open>fst (started ! k)\<close> for \<open>snd (started ! k)\<close>
  seconds; \<open>stopped\<close> holds the sources on which \<open>stop()\<close> was called, \<open>ended\<close> those whose
  \<open>ended\<close> event was delivered), and the log of outside calls. \<open>decoding\<close> counts the
  \<open>onmessage\<close> invocations suspended at \<^verbatim>\<open>await decodeAudioBuffer\<close>. A time is an IEEE
  double in the source and here the real number that double denotes.
\<close>

record world = app +
  inputAudioContextRef :: bool
  outputAudioContextRef :: bool
  liveSessionRef :: bool
  nextStartTimeRef :: real
  activeSources :: "nat set"
  decoding :: nat
  started :: "(real \<times> real) list"
  stopped :: "nat set"
  ended :: "nat set"
  calls :: "call list"

text \<open>
  What the outside world answers during one \<open>handleSend\<close>: four successive readings of
  \<open>Date.now()\<close>, and the two service functions of \<^verbatim>\<open>services/geminiService\<close>, which is
  not part of the sources at hand and is therefore a parameter. Both are taken to
  settle: the image promise resolves (with a URL or nothing) or rejects; the chat call
  throws, or gives a stream that yields finitely many fragments and then ends or throws.
\<close>

datatype image_outcome = ImageResolved "jsstring option" | ImageRejected

datatype ending = Ends | Throws

datatype chat_outcome = ChatCallThrows | ChatStream "jsstring list" ending

record env =
  now1 :: nat
  now2 :: nat
  now3 :: nat
  now4 :: nat
  generateLeoImage :: "jsstring \<Rightarrow> image_outcome"
  chatWithLeoStream :: "jsstring \<Rightarrow> content list \<Rightarrow> chat_outcome"

definition setMessages :: "(message list \<Rightarrow> message list) \<Rightarrow> world \<Rightarrow> world" where
  "setMessages f w = w\<lparr>messages := f (messages w)\<rparr>"

definition setInput :: "jsstring \<Rightarrow> world \<Rightarrow> world" where
  "setInput v w = w\<lparr>input := v\<rparr>"

definition setLeoState :: "(leoState \<Rightarrow> leoState) \<Rightarrow> world \<Rightarrow> world" where
  "setLeoState f w = w\<lparr>leoState := f (leoState w)\<rparr>"

definition logCall :: "call \<Rightarrow> world \<Rightarrow> world" where
  "logCall c w = w\<lparr>calls := calls w @ [c]\<rparr>"

text \<open>
  \<open>initAudioContexts\<close> creates each context that is still missing; resuming a suspended
  context is not awaited and changes nothing modelled here.
\<close>

definition initAudioContexts :: "world \<Rightarrow> world" where
  "initAudioContexts w = w\<lparr>inputAudioContextRef := True, outputAudioContextRef := True\<rparr>"

subsection \<open>handleSend\<close>

text \<open>\<open>textOverride || input\<close>: an absent or empty override falls back to the input field.\<close>

definition textToSend :: "jsstring option \<Rightarrow> 'a app_scheme \<Rightarrow> jsstring" where
  "textToSend textOverride r =
     (case textOverride of None \<Rightarrow> input r | Some t \<Rightarrow> if t = [] then input r else t)"

definition userMsg :: "jsstring \<Rightarrow> env \<Rightarrow> message" where
  "userMsg t e =
     \<lparr>id_msg = toString (now1 e), role = User, text_msg = t, timestamp = now2 e,
      sources = None, isSearching = None, imageUrl = None\<rparr>"

definition imageMsg :: "jsstring \<Rightarrow> env \<Rightarrow> message" where
  "imageMsg url e =
     \<lparr>id_msg = toString (now3 e), role = Leo,
      text_msg = js ''Boom. Here's that visualization you wanted. Absolute fire.'',
      timestamp = now4 e, sources = None, isSearching = None, imageUrl = Some url\<rparr>"

definition leoMsg :: "env \<Rightarrow> message" where
  "leoMsg e =
     \<lparr>id_msg = toString (now3 e), role = Leo, text_msg = [], timestamp = now4 e,
      sources = None, isSearching = None, imageUrl = None\<rparr>"

text \<open>\<open>messages.slice(-6)\<close> and the mapping to role-tagged entries (lines 171 to 174).\<close>

definition slice_last :: "nat \<Rightarrow> 'a list \<Rightarrow> 'a list" where
  "slice_last n xs = drop (length xs - n) xs"

definition toContent :: "message \<Rightarrow> content" where
  "toContent m = Content (if role m = Leo then RoleModel else RoleUser) [text_msg m]"

definition history :: "'a app_scheme \<Rightarrow> content list" where
  "history r = map toContent (slice_last 6 (messages r))"

text \<open>The updater of line 182.\<close>

definition setText :: "jsstring \<Rightarrow> jsstring \<Rightarrow> message \<Rightarrow> message" where
  "setText leoId fullText m = (if id_msg m = leoId then m\<lparr>text_msg := fullText\<rparr> else m)"

text \<open>The \<^verbatim>\<open>for await\<close> loop of lines 180 to 183 over the fragments that arrive.\<close>

fun forAwait :: "jsstring \<Rightarrow> jsstring \<Rightarrow> jsstring list \<Rightarrow> world \<Rightarrow> world" where
  "forAwait leoId fullText [] w = w"
| "forAwait leoId fullText (chunk # rest) w =
     forAwait leoId (fullText @ chunk) rest
       (setMessages (map (setText leoId (fullText @ chunk))) w)"

text \<open>Lines 142 to 146: the user message is posted and the thinking flag raised.\<close>

definition postUser :: "jsstring \<Rightarrow> env \<Rightarrow> world \<Rightarrow> world" where
  "postUser t e w =
     setLeoState (\<lambda>prev. prev\<lparr>isThinking := True\<rparr>)
       (setInput []
         (setMessages (\<lambda>prev. prev @ [userMsg t e])
           (initAudioContexts w)))"

text \<open>
  Lines 167 to 186: the streaming text reply. \<open>r\<close> is the render the handler closes over:
  the history is cut from its \<open>messages\<close>, not from the updaters' \<open>prev\<close>.
\<close>

definition streamReply :: "jsstring \<Rightarrow> 'a app_scheme \<Rightarrow> env \<Rightarrow> world \<Rightarrow> world" where
  "streamReply t r e w =
     (let leoId = toString (now3 e);
          w1 = setMessages (\<lambda>prev. prev @ [leoMsg e]) w;
          w2 = logCall (ChatWithLeoStream t (history r)) w1
      in case chatWithLeoStream e t (history r) of
           ChatCallThrows \<Rightarrow>
             setLeoState (\<lambda>prev. prev\<lparr>isThinking := False, emotion := Concerned\<rparr>) w2
         | ChatStream chunks fin \<Rightarrow>
             (let w3 = setLeoState (\<lambda>prev. prev\<lparr>isThinking := False, emotion := Neutral\<rparr>) w2;
                  w4 = forAwait leoId [] chunks w3
              in case fin of
                   Ends \<Rightarrow> w4
                 | Throws \<Rightarrow>
                     setLeoState (\<lambda>prev. prev\<lparr>isThinking := False, emotion := Concerned\<rparr>) w4))"

text \<open>Lines 154 to 162: the caption message of a generated image.\<close>

definition imageReply :: "jsstring \<Rightarrow> env \<Rightarrow> world \<Rightarrow> world" where
  "imageReply url e w =
     setLeoState (\<lambda>prev. prev\<lparr>isThinking := False, emotion := Happy\<rparr>)
       (setMessages (\<lambda>prev. prev @ [imageMsg url e]) w)"

text \<open>
  \<open>handleSend\<close> (lines 138 to 187), run from the world \<open>w\<close> by the handler that render \<open>r\<close>
  created. \<open>if (imageUrl)\<close> takes a resolved URL only when it is a non-empty string.
\<close>

definition handleSend :: "jsstring option \<Rightarrow> 'a app_scheme \<Rightarrow> env \<Rightarrow> world \<Rightarrow> world" where
  "handleSend textOverride r e w =
     (let t = textToSend textOverride r in
      if trim t = [] \<or> isThinking (leoState r) then w
      else
        let w1 = postUser t e w in
        if isImageReq t then
          (let w2 = logCall (GenerateLeoImage t) w1 in
           case generateLeoImage e t of
             ImageResolved None \<Rightarrow> streamReply t r e w2
           | ImageResolved (Some url) \<Rightarrow>
               if url \<noteq> [] then imageReply url e w2 else streamReply t r e w2
           | ImageRejected \<Rightarrow> streamReply t r e (logCall (ConsoleError []) w2))
        else streamReply t r e w1)"

text \<open>The state the component mounts with (lines 19 to 40); \<open>t0\<close> is \<open>Date.now()\<close> then.\<close>

definition welcomeMsg :: "nat \<Rightarrow> message" where
  "welcomeMsg t0 =
     \<lparr>id_msg = js ''welcome'', role = Leo,
      text_msg = js ''Yo. I'm Leo. Think of me as your smart, slightly chaotic friend who actually has a personality. Want to chat, argue, or see me visualize something wild?'',
      timestamp = t0, sources = None, isSearching = None, imageUrl = None\<rparr>"

definition initialWorld :: "nat \<Rightarrow> world" where
  "initialWorld t0 =
     \<lparr>messages = [welcomeMsg t0], input = [],
      leoState = \<lparr>emotion = Neutral, isSpeaking = False, isThinking = False, isLive = False\<rparr>,
      inputAudioContextRef = False, outputAudioContextRef = False, liveSessionRef = False,
      nextStartTimeRef = 0, activeSources = {}, decoding = 0, started = [], stopped = {},
      ended = {}, calls = []\<rparr>"

subsection \<open>toggleLive\<close>

text \<open>
  What the outside world answers during one \<open>toggleLive\<close>. \<open>getGeminiClient\<close> sits
  before the \<^verbatim>\<open>try\<close>, so an exception of it leaves \<open>toggleLive\<close>; the microphone
  request and the connect call sit inside, so theirs are caught.
\<close>

datatype client_outcome = ClientReturns | ClientThrows

datatype media_outcome = Granted | Denied

datatype connect_outcome = ConnectReturns | ConnectThrows

record live_env =
  getGeminiClient :: client_outcome
  getUserMedia :: media_outcome
  liveConnect :: connect_outcome

datatype error = ClientError

text \<open>
  \<open>toggleLive\<close> (lines 54 to 136). \<open>Inl (x, w')\<close>: the exception \<open>x\<close> leaves the function,
  the world being \<open>w'\<close> by then. The callbacks handed to \<open>connect\<close> are the handlers of
  the next subsection.
\<close>

definition toggleLive :: "'a app_scheme \<Rightarrow> live_env \<Rightarrow> world \<Rightarrow> (error \<times> world) + world" where
  "toggleLive r e w =
     (if isLive (leoState r) then Inr (logCall Reload w)
      else
        let w1 = initAudioContexts w in
        case getGeminiClient e of
          ClientThrows \<Rightarrow> Inl (ClientError, logCall GetGeminiClient w1)
        | ClientReturns \<Rightarrow>
            (let w2 = logCall GetUserMedia (logCall GetGeminiClient w1) in
             case getUserMedia e of
               Denied \<Rightarrow> Inr (logCall (ConsoleError (js ''Mic Access Failed:'')) w2)
             | Granted \<Rightarrow>
                 (case liveConnect e of
                    ConnectThrows \<Rightarrow>
                      Inr (logCall (ConsoleError (js ''Mic Access Failed:'')) (logCall LiveConnect w2))
                  | ConnectReturns \<Rightarrow> Inr ((logCall LiveConnect w2)\<lparr>liveSessionRef := True\<rparr>))))"

subsection \<open>The live session's callbacks\<close>

text \<open>
  A message of the live endpoint, as far as \<open>onmessage\<close> reads it:
  \<open>serverContent?.interrupted\<close> and \<open>serverContent?.modelTurn?.parts?.[0]?.inlineData?.data\<close>.
\<close>

record liveServerMessage =
  interrupted :: bool
  audioData :: "jsstring option"

text \<open>
  \<open>onmessage\<close> up to its \<^verbatim>\<open>await\<close> (lines 88 to 102). An interruption is handled without
  suspending; an audio frame suspends the invocation until its buffer is decoded.
\<close>

definition onmessage :: "liveServerMessage \<Rightarrow> world \<Rightarrow> world" where
  "onmessage msg w =
     (if interrupted msg then
        w\<lparr>stopped := stopped w \<union> activeSources w, activeSources := {}, nextStartTimeRef := 0\<rparr>
      else
        case audioData msg of
          None \<Rightarrow> w
        | Some d \<Rightarrow> if d \<noteq> [] \<and> outputAudioContextRef w then w\<lparr>decoding := Suc (decoding w)\<rparr> else w)"

text \<open>
  Addition of doubles is the exact sum rounded to the nearest double. The rounding \<open>rnd\<close>
  is a parameter of the model; what is used of it is stated where it is used.
\<close>

definition addDouble :: "(real \<Rightarrow> real) \<Rightarrow> real \<Rightarrow> real \<Rightarrow> real" where
  "addDouble rnd a b = rnd (a + b)"

text \<open>
  \<open>onmessage\<close> after its \<^verbatim>\<open>await\<close> (lines 104 to 120), resumed with a buffer of the given
  duration while the output context's clock reads \<open>currentTime\<close>. \<open>Math.max\<close> returns one of
  its arguments; the \<^verbatim>\<open>+=\<close> of line 110 is an addition of doubles.
\<close>

definition onmessage_decoded :: "(real \<Rightarrow> real) \<Rightarrow> real \<Rightarrow> real \<Rightarrow> world \<Rightarrow> world" where
  "onmessage_decoded rnd duration currentTime w =
     (let source = length (started w);
          start = max (nextStartTimeRef w) currentTime
      in setLeoState (\<lambda>prev. prev\<lparr>isSpeaking := True\<rparr>)
           (w\<lparr>decoding := decoding w - 1,
              nextStartTimeRef := addDouble rnd start duration,
              started := started w @ [(start, duration)],
              activeSources := insert source (activeSources w)\<rparr>))"

text \<open>\<open>source.onended\<close> (lines 115 to 120).\<close>

definition onended :: "nat \<Rightarrow> world \<Rightarrow> world" where
  "onended source w =
     (let w1 = w\<lparr>activeSources := activeSources w - {source}, ended := insert source (ended w)\<rparr>
      in if activeSources w1 = {} then setLeoState (\<lambda>prev. prev\<lparr>isSpeaking := False\<rparr>) w1
         else w1)"

text \<open>\<open>onopen\<close>, \<open>onerror\<close> and \<open>onclose\<close>; the microphone wiring of \<open>onopen\<close> is left out.\<close>

definition onopen :: "world \<Rightarrow> world" where
  "onopen w = setLeoState (\<lambda>prev. prev\<lparr>isLive := True, emotion := Happy\<rparr>) w"

definition onerror :: "world \<Rightarrow> world" where
  "onerror w = logCall (ConsoleError (js ''Live Error:'')) w"

definition onclose :: "world \<Rightarrow> world" where
  "onclose w = setLeoState (\<lambda>prev. prev\<lparr>isLive := False\<rparr>) w"

text \<open>
  The event loop runs one callback segment at a time, to completion. A session is a list
  of such segments in the order the loop ran them: a decode completes only for an
  invocation that is suspended, and a source ends only once it exists.
\<close>

datatype event =
    OnOpen
  | OnMessage liveServerMessage
  | Decoded real real
  | DecodeFailed
  | Ended nat
  | OnError
  | OnClose

fun deliver :: "(real \<Rightarrow> real) \<Rightarrow> event \<Rightarrow> world \<Rightarrow> world" where
  "deliver rnd OnOpen w = onopen w"
| "deliver rnd (OnMessage msg) w = onmessage msg w"
| "deliver rnd (Decoded duration currentTime) w =
     (if 0 < decoding w then onmessage_decoded rnd duration currentTime w else w)"
| "deliver rnd DecodeFailed w = w\<lparr>decoding := decoding w - 1\<rparr>"
| "deliver rnd (Ended source) w = (if source < length (started w) then onended source w else w)"
| "deliver rnd OnError w = onerror w"
| "deliver rnd OnClose w = onclose w"

definition run :: "(real \<Rightarrow> real) \<Rightarrow> event list \<Rightarrow> world \<Rightarrow> world" where
  "run rnd evs w = fold (deliver rnd) evs w"

section \<open>Notions used to state the properties\<close>

text \<open>The fragments a chat call delivered before it ended or failed.\<close>

definition received :: "chat_outcome \<Rightarrow> jsstring list" where
  "received out = (case out of ChatCallThrows \<Rightarrow> [] | ChatStream chunks fin \<Rightarrow> chunks)"

text \<open>The image URL that line 153 accepts, if the image path is taken and yields one.\<close>

definition imageResult :: "jsstring \<Rightarrow> env \<Rightarrow> jsstring option" where
  "imageResult t e =
     (if isImageReq t then
        (case generateLeoImage e t of
           ImageResolved (Some url) \<Rightarrow> if url \<noteq> [] then Some url else None
         | ImageResolved None \<Rightarrow> None
         | ImageRejected \<Rightarrow> None)
      else None)"

text \<open>
  The classification in the specification's words: the text mentions one of the keywords
  generate, visualize, create, show me, in whatever mix of upper and lower case.
\<close>

definition toLowerAscii :: "jschar \<Rightarrow> jschar" where
  "toLowerAscii c = (if 0x41 \<le> c \<and> c \<le> 0x5A then c + 0x20 else c)"

definition mentionsKeyword :: "jsstring \<Rightarrow> bool" where
  "mentionsKeyword t \<longleftrightarrow>
     sublist (js ''generate'') (map toLowerAscii t)
     \<or> sublist (js ''visualize'') (map toLowerAscii t)
     \<or> sublist (js ''create'') (map toLowerAscii t)
     \<or> sublist (js ''show me'') (map toLowerAscii t)"

text \<open>An environment that answers the same whatever it is asked, for the examples.\<close>

definition fixedEnv :: "nat \<Rightarrow> nat \<Rightarrow> image_outcome \<Rightarrow> chat_outcome \<Rightarrow> env" where
  "fixedEnv tUser tLeo img chat =
     \<lparr>now1 = tUser, now2 = tUser, now3 = tLeo, now4 = tLeo,
      generateLeoImage = (\<lambda>_. img), chatWithLeoStream = (\<lambda>_ _. chat)\<rparr>"


text \<open>
  A stand-in for the examples: rounding to the nearest quarter. The times of the examples
  are integers, which it leaves alone, as rounding to the nearest double does.
\<close>

definition toQuarter :: "real \<Rightarrow> real" where
  "toQuarter x = of_int \<lfloor>x * 4 + 1 / 2\<rfloor> / 4"





text \<open>A message of the given role and text, for the examples.\<close>

definition msgOf :: "role \<Rightarrow> jsstring \<Rightarrow> message" where
  "msgOf ro t =
     \<lparr>id_msg = t, role = ro, text_msg = t, timestamp = 0,
      sources = None, isSearching = None, imageUrl = None\<rparr>"

definition audioFrame :: liveServerMessage where
  "audioFrame = \<lparr>interrupted = False, audioData = Some (js ''AAAA'')\<rparr>"

definition interruption :: liveServerMessage where
  "interruption = \<lparr>interrupted = True, audioData = None\<rparr>"

text \<open>
  Every source is known to the playback API, a source held in \<open>activeSources\<close> has neither
  been stopped nor reported its end, and a source in none of the three sets does not exist.
\<close>

definition sessionInv :: "world \<Rightarrow> bool" where
  "sessionInv w \<longleftrightarrow>
     (\<forall>k \<in> activeSources w \<union> stopped w \<union> ended w. k < length (started w))
     \<and> activeSources w \<inter> (stopped w \<union> ended w) = {}
     \<and> (\<forall>k<length (started w). k \<in> activeSources w \<or> k \<in> stopped w \<or> k \<in> ended w)"

section \<open>Properties\<close>

subsection \<open>Facts about the streaming loop and the handler\<close>

lemma setText_twice: "setText l b (setText l a m) = setText l b m"
  by (simp add: setText_def)

lemma setText_fields:
  "id_msg (setText l f m) = id_msg m" "role (setText l f m) = role m"
  "timestamp (setText l f m) = timestamp m" "sources (setText l f m) = sources m"
  "isSearching (setText l f m) = isSearching m" "imageUrl (setText l f m) = imageUrl m"
  by (simp_all add: setText_def)

lemma setText_other: "id_msg m \<noteq> l \<Longrightarrow> setText l f m = m"
  by (simp add: setText_def)

lemma setText_leoMsg: "setText (toString (now3 e)) f (leoMsg e) = (leoMsg e)\<lparr>text_msg := f\<rparr>"
  by (simp add: setText_def leoMsg_def)

lemma forAwait_eq:
  "forAwait l acc cs w =
     (if cs = [] then w else setMessages (map (setText l (acc @ concat cs))) w)"
proof (induction cs arbitrary: acc w)
  case Nil
  show ?case by simp
next
  case (Cons c cs)
  show ?case
    by (simp add: Cons.IH setMessages_def setText_twice comp_def)
qed

lemmas world_ops = setMessages_def setLeoState_def setInput_def logCall_def
  initAudioContexts_def

lemma streamReply_messages:
  "messages (streamReply t r e w) =
     (let cs = received (chatWithLeoStream e t (history r)) in
      if cs = [] then messages w @ [leoMsg e]
      else map (setText (toString (now3 e)) (concat cs)) (messages w @ [leoMsg e]))"
  by (simp add: streamReply_def received_def forAwait_eq world_ops Let_def
      split: chat_outcome.split ending.split)

lemma streamReply_calls:
  "calls (streamReply t r e w) = calls w @ [ChatWithLeoStream t (history r)]"
  by (simp add: streamReply_def forAwait_eq world_ops Let_def
      split: chat_outcome.split ending.split)

lemma streamReply_leoState:
  "leoState (streamReply t r e w) =
     (leoState w)\<lparr>isThinking := False,
       emotion := (case chatWithLeoStream e t (history r) of
                     ChatStream chunks Ends \<Rightarrow> Neutral | _ \<Rightarrow> Concerned)\<rparr>"
  by (simp add: streamReply_def forAwait_eq world_ops Let_def
      split: chat_outcome.split ending.split)

lemma handleSend_messages:
  assumes "trim (textToSend ov r) \<noteq> []" and "\<not> isThinking (leoState r)"
  shows "messages (handleSend ov r e w) =
     (case imageResult (textToSend ov r) e of
        Some url \<Rightarrow> messages w @ [userMsg (textToSend ov r) e, imageMsg url e]
      | None \<Rightarrow>
         (let cs = received (chatWithLeoStream e (textToSend ov r) (history r)) in
          if cs = [] then messages w @ [userMsg (textToSend ov r) e, leoMsg e]
          else map (setText (toString (now3 e)) (concat cs))
                 (messages w @ [userMsg (textToSend ov r) e, leoMsg e])))"
  using assms
  by (simp add: handleSend_def imageResult_def streamReply_messages postUser_def
      imageReply_def world_ops Let_def split: image_outcome.split option.split)

lemma handleSend_leoState:
  assumes "trim (textToSend ov r) \<noteq> []" and "\<not> isThinking (leoState r)"
  shows "leoState (handleSend ov r e w) =
     (case imageResult (textToSend ov r) e of
        Some url \<Rightarrow> (leoState w)\<lparr>isThinking := False, emotion := Happy\<rparr>
      | None \<Rightarrow>
         (leoState w)\<lparr>isThinking := False,
            emotion := (case chatWithLeoStream e (textToSend ov r) (history r) of
                     ChatStream chunks Ends \<Rightarrow> Neutral | _ \<Rightarrow> Concerned)\<rparr>)"
  using assms
  by (simp add: handleSend_def imageResult_def streamReply_leoState postUser_def
      imageReply_def world_ops Let_def split: image_outcome.split option.split)

lemma handleSend_calls:
  assumes "trim (textToSend ov r) \<noteq> []" and "\<not> isThinking (leoState r)"
  shows "calls (handleSend ov r e w) =
     calls w @
     (if isImageReq (textToSend ov r) then
        GenerateLeoImage (textToSend ov r) #
        (case generateLeoImage e (textToSend ov r) of
           ImageRejected \<Rightarrow> [ConsoleError [], ChatWithLeoStream (textToSend ov r) (history r)]
         | ImageResolved None \<Rightarrow> [ChatWithLeoStream (textToSend ov r) (history r)]
         | ImageResolved (Some url) \<Rightarrow>
             if url \<noteq> [] then [] else [ChatWithLeoStream (textToSend ov r) (history r)])
      else [ChatWithLeoStream (textToSend ov r) (history r)])"
  using assms
  by (simp add: handleSend_def streamReply_calls postUser_def
      imageReply_def world_ops Let_def split: image_outcome.split option.split)

lemma handleSend_last:
  assumes "trim (textToSend ov r) \<noteq> []" and "\<not> isThinking (leoState r)"
  shows "last (messages (handleSend ov r e w)) =
     (case imageResult (textToSend ov r) e of
        Some url \<Rightarrow> imageMsg url e
      | None \<Rightarrow>
         (leoMsg e)\<lparr>text_msg :=
           concat (received (chatWithLeoStream e (textToSend ov r) (history r)))\<rparr>)"
proof -
  have empty: "(leoMsg e)\<lparr>text_msg := []\<rparr> = leoMsg e"
    by (simp add: leoMsg_def)
  show ?thesis
    by (simp add: handleSend_messages [OF assms] Let_def setText_leoMsg empty
        split: option.split)
qed

lemma handleSend_length:
  assumes "trim (textToSend ov r) \<noteq> []" and "\<not> isThinking (leoState r)"
  shows "length (messages (handleSend ov r e w)) = length (messages w) + 2"
  by (simp add: handleSend_messages [OF assms] Let_def split: option.split)

lemma streamReply_input: "input (streamReply t r e w) = input w"
  by (simp add: streamReply_def forAwait_eq world_ops Let_def
      split: chat_outcome.split ending.split)

lemma handleSend_input:
  assumes "trim (textToSend ov r) \<noteq> []" and "\<not> isThinking (leoState r)"
  shows "input (handleSend ov r e w) = []"
  using assms
  by (simp add: handleSend_def streamReply_input postUser_def
      imageReply_def world_ops Let_def split: image_outcome.split option.split)

lemma textToSend_Some: "t \<noteq> [] \<Longrightarrow> textToSend (Some t) r = t"
  by (simp add: textToSend_def)

lemma generate_a_sunset_nonblank: "trim (js ''generate a sunset'') \<noteq> []"
  by (simp add: trim_def isWhiteSpace_def js_def)

lemma whats_the_weather_nonblank: "trim (js ''what's the weather'') \<noteq> []"
  by (simp add: trim_def isWhiteSpace_def js_def)



lemma imageResult_None_iff:
  "imageResult t e = None \<longleftrightarrow>
     \<not> isImageReq t \<or> generateLeoImage e t = ImageRejected
     \<or> generateLeoImage e t = ImageResolved None \<or> generateLeoImage e t = ImageResolved (Some [])"
  by (auto simp add: imageResult_def split: image_outcome.splits option.splits if_splits)


lemma fixedEnv_sel:
  "now1 (fixedEnv a b i c) = a" "now2 (fixedEnv a b i c) = a"
  "now3 (fixedEnv a b i c) = b" "now4 (fixedEnv a b i c) = b"
  "generateLeoImage (fixedEnv a b i c) x = i" "chatWithLeoStream (fixedEnv a b i c) x h = c"
  by (simp_all add: fixedEnv_def)


text \<open>
  The pattern of the source accepts exactly the texts that mention a keyword: comparing
  after \<open>canonicalize\<close> is comparing after lower-casing, and the search tries every
  position.
\<close>

lemma canonicalize_eq_iff:
  "canonicalize a = canonicalize b \<longleftrightarrow> toLowerAscii a = toLowerAscii b"
  unfolding canonicalize_def toLowerAscii_def
  by (auto simp add: word_le_nat_alt word_less_nat_alt unat_sub unat_word_ariths
      word_unat_eq_iff split: if_splits)

lemma matchesAt_iff_prefix:
  "matchesAt p t \<longleftrightarrow> prefix (map toLowerAscii p) (map toLowerAscii t)"
  by (induction p t rule: matchesAt.induct) (simp_all add: canonicalize_eq_iff)

lemma regexTest_iff_sublist:
  "regexTest alts t \<longleftrightarrow> (\<exists>p\<in>set alts. sublist (map toLowerAscii p) (map toLowerAscii t))"
proof (induction t)
  case Nil
  show ?case
    by (simp add: list_ex_iff matchesAt_iff_prefix)
next
  case (Cons c cs)
  show ?case
    by (auto simp add: list_ex_iff matchesAt_iff_prefix Cons.IH sublist_Cons_right)
qed

lemma keywords_lower:
  "map toLowerAscii (js ''generate'') = js ''generate''"
  "map toLowerAscii (js ''visualize'') = js ''visualize''"
  "map toLowerAscii (js ''create'') = js ''create''"
  "map toLowerAscii (js ''show me'') = js ''show me''"
  by (simp_all add: js_def toLowerAscii_def)

lemma isImageReq_iff_mentionsKeyword: "isImageReq t \<longleftrightarrow> mentionsKeyword t"
  by (simp add: isImageReq_def mentionsKeyword_def regexTest_iff_sublist keywords_lower)

subsection \<open>Chat orchestration\<close>






text \<open>
  C4. On the streaming path the assistant message ends up carrying the fragments received,
  concatenated in the order of their arrival: after \<open>Hel\<close> and \<open>lo!\<close> its text is
  \<open>Hello!\<close>.
\<close>

theorem stream_fragments_appended_in_order:
  assumes "trim (textToSend textOverride r) \<noteq> []" and "\<not> isThinking (leoState r)"
    and "imageResult (textToSend textOverride r) e = None"
    and "chatWithLeoStream e (textToSend textOverride r) (history r) = ChatStream chunks fin"
  shows "last (messages (handleSend textOverride r e w)) = (leoMsg e)\<lparr>text_msg := concat chunks\<rparr>
    \<and> (chunks = [js ''Hel'', js ''lo!''] \<longrightarrow>
         text_msg (last (messages (handleSend textOverride r e w))) = js ''Hello!'')"
proof -
  have "last (messages (handleSend textOverride r e w)) = (leoMsg e)\<lparr>text_msg := concat chunks\<rparr>"
    using assms(3,4) by (simp add: handleSend_last [OF assms(1,2)] received_def)
  then show ?thesis
    by (simp add: js_def)
qed

theorem stream_fragments_appended_in_order_witness:
  "trim (textToSend (Some (js ''hi'')) (initialWorld 0)) \<noteq> []
   \<and> \<not> isThinking (leoState (initialWorld 0))
   \<and> imageResult (textToSend (Some (js ''hi'')) (initialWorld 0))
        (fixedEnv 1000 1001 ImageRejected (ChatStream [js ''Hel'', js ''lo!''] Ends)) = None
   \<and> text_msg (last (messages (handleSend (Some (js ''hi'')) (initialWorld 0)
        (fixedEnv 1000 1001 ImageRejected (ChatStream [js ''Hel'', js ''lo!''] Ends))
        (initialWorld 0)))) = js ''Hello!''"
proof -
  let ?e = "fixedEnv 1000 1001 ImageRejected (ChatStream [js ''Hel'', js ''lo!''] Ends)"
  have nonblank: "trim (textToSend (Some (js ''hi'')) (initialWorld 0)) \<noteq> []"
    by (simp add: textToSend_def trim_def isWhiteSpace_def js_def)
  have idle: "\<not> isThinking (leoState (initialWorld 0))"
    by (simp add: initialWorld_def)
  have noimg: "imageResult (textToSend (Some (js ''hi'')) (initialWorld 0)) ?e = None"
    by (simp add: imageResult_def isImageReq_def textToSend_def js_def canonicalize_def)
  have str: "chatWithLeoStream ?e (textToSend (Some (js ''hi'')) (initialWorld 0))
      (history (initialWorld 0)) = ChatStream [js ''Hel'', js ''lo!''] Ends"
    by (simp add: fixedEnv_def)
  from stream_fragments_appended_in_order [OF nonblank idle noimg str] nonblank idle noimg
  show ?thesis by blast
qed

text \<open>
  C7. When the stream throws after some fragments, the emotion is \<open>concerned\<close>, the
  thinking flag is cleared, and the message list keeps both new messages, the assistant
  message carrying the fragments that arrived before the failure.
\<close>

theorem stream_failure_keeps_partial_text:
  assumes "trim (textToSend textOverride r) \<noteq> []" and "\<not> isThinking (leoState r)"
    and "imageResult (textToSend textOverride r) e = None"
    and "chatWithLeoStream e (textToSend textOverride r) (history r) = ChatStream chunks Throws"
  shows "leoState (handleSend textOverride r e w) =
           (leoState w)\<lparr>isThinking := False, emotion := Concerned\<rparr>
    \<and> length (messages (handleSend textOverride r e w)) = length (messages w) + 2
    \<and> last (messages (handleSend textOverride r e w)) = (leoMsg e)\<lparr>text_msg := concat chunks\<rparr>"
proof -
  have "leoState (handleSend textOverride r e w) =
           (leoState w)\<lparr>isThinking := False, emotion := Concerned\<rparr>"
    using assms(3,4) by (simp add: handleSend_leoState [OF assms(1,2)])
  moreover have "length (messages (handleSend textOverride r e w)) = length (messages w) + 2"
    by (rule handleSend_length [OF assms(1,2)])
  moreover have "last (messages (handleSend textOverride r e w)) =
      (leoMsg e)\<lparr>text_msg := concat chunks\<rparr>"
    using assms(3,4) by (simp add: handleSend_last [OF assms(1,2)] received_def)
  ultimately show ?thesis by blast
qed

theorem stream_failure_keeps_partial_text_witness:
  "trim (textToSend (Some (js ''hi'')) (initialWorld 0)) \<noteq> []
   \<and> \<not> isThinking (leoState (initialWorld 0))
   \<and> imageResult (textToSend (Some (js ''hi'')) (initialWorld 0))
        (fixedEnv 1000 1001 ImageRejected (ChatStream [js ''Hel''] Throws)) = None
   \<and> emotion (leoState (handleSend (Some (js ''hi'')) (initialWorld 0)
        (fixedEnv 1000 1001 ImageRejected (ChatStream [js ''Hel''] Throws))
        (initialWorld 0))) = Concerned
   \<and> \<not> isThinking (leoState (handleSend (Some (js ''hi'')) (initialWorld 0)
        (fixedEnv 1000 1001 ImageRejected (ChatStream [js ''Hel''] Throws))
        (initialWorld 0)))
   \<and> text_msg (last (messages (handleSend (Some (js ''hi'')) (initialWorld 0)
        (fixedEnv 1000 1001 ImageRejected (ChatStream [js ''Hel''] Throws))
        (initialWorld 0)))) = js ''Hel''"
proof -
  let ?e = "fixedEnv 1000 1001 ImageRejected (ChatStream [js ''Hel''] Throws)"
  have nonblank: "trim (textToSend (Some (js ''hi'')) (initialWorld 0)) \<noteq> []"
    by (simp add: textToSend_def trim_def isWhiteSpace_def js_def)
  have idle: "\<not> isThinking (leoState (initialWorld 0))"
    by (simp add: initialWorld_def)
  have noimg: "imageResult (textToSend (Some (js ''hi'')) (initialWorld 0)) ?e = None"
    by (simp add: imageResult_def isImageReq_def textToSend_def js_def canonicalize_def)
  have str: "chatWithLeoStream ?e (textToSend (Some (js ''hi'')) (initialWorld 0))
      (history (initialWorld 0)) = ChatStream [js ''Hel''] Throws"
    by (simp add: fixedEnv_def)
  from stream_failure_keeps_partial_text [OF nonblank idle noimg str] nonblank idle noimg
  show ?thesis by simp
qed

text \<open>
  C6. The pattern accepts a text exactly when it contains \<open>generate\<close>, \<open>visualize\<close>,
  \<open>create\<close> or \<open>show me\<close>, upper and lower case alike: so \<open>generate a sunset\<close> is
  accepted and \<open>what's the weather\<close> is not. For an accepted text the image service is the
  first collaborator called; for any other the chat stream is the only one. When the
  pattern matches and the image promise rejects, or resolves with nothing or with an
  empty string, the handler goes on exactly as on the text path: messages, flags and
  input field are those of the streaming reply run after the user message was posted, and
  the chat stream is the last collaborator called.
\<close>

theorem image_intent_classification_and_fallback:
  assumes "\<not> isThinking (leoState r)"
  shows "(isImageReq t \<longleftrightarrow>
          sublist (js ''generate'') (map toLowerAscii t)
          \<or> sublist (js ''visualize'') (map toLowerAscii t)
          \<or> sublist (js ''create'') (map toLowerAscii t)
          \<or> sublist (js ''show me'') (map toLowerAscii t))
    \<and> isImageReq (js ''generate a sunset'')
    \<and> \<not> isImageReq (js ''what's the weather'')
    \<and> isImageReq (js ''Please VISUALIZE it'')
    \<and> isImageReq (js ''re-CrEaTe that'')
    \<and> isImageReq (js ''Show Me'')
    \<and> (trim (textToSend textOverride r) \<noteq> [] \<and> isImageReq (textToSend textOverride r) \<longrightarrow>
         take (Suc (length (calls w))) (calls (handleSend textOverride r e w)) =
           calls w @ [GenerateLeoImage (textToSend textOverride r)])
    \<and> (trim (textToSend textOverride r) \<noteq> [] \<and> \<not> isImageReq (textToSend textOverride r) \<longrightarrow>
         calls (handleSend textOverride r e w) =
           calls w @ [ChatWithLeoStream (textToSend textOverride r) (history r)])
    \<and> take (Suc (length (calls w)))
         (calls (handleSend (Some (js ''generate a sunset'')) r e w)) =
         calls w @ [GenerateLeoImage (js ''generate a sunset'')]
    \<and> calls (handleSend (Some (js ''what's the weather'')) r e w) =
         calls w @ [ChatWithLeoStream (js ''what's the weather'') (history r)]
    \<and> (trim (textToSend textOverride r) \<noteq> [] \<and> isImageReq (textToSend textOverride r)
         \<and> (generateLeoImage e (textToSend textOverride r) = ImageRejected
            \<or> generateLeoImage e (textToSend textOverride r) = ImageResolved None
            \<or> generateLeoImage e (textToSend textOverride r) = ImageResolved (Some [])) \<longrightarrow>
         messages (handleSend textOverride r e w) =
           messages (streamReply (textToSend textOverride r) r e
             (postUser (textToSend textOverride r) e w))
         \<and> leoState (handleSend textOverride r e w) =
           leoState (streamReply (textToSend textOverride r) r e
             (postUser (textToSend textOverride r) e w))
         \<and> input (handleSend textOverride r e w) =
           input (streamReply (textToSend textOverride r) r e
             (postUser (textToSend textOverride r) e w))
         \<and> last (calls (handleSend textOverride r e w)) =
           ChatWithLeoStream (textToSend textOverride r) (history r))"
proof -
  have spec: "isImageReq t \<longleftrightarrow>
          sublist (js ''generate'') (map toLowerAscii t)
          \<or> sublist (js ''visualize'') (map toLowerAscii t)
          \<or> sublist (js ''create'') (map toLowerAscii t)
          \<or> sublist (js ''show me'') (map toLowerAscii t)"
    by (simp add: isImageReq_iff_mentionsKeyword mentionsKeyword_def)
  have img: "isImageReq (js ''generate a sunset'')"
    by (simp add: isImageReq_def js_def canonicalize_def)
  have plain: "\<not> isImageReq (js ''what's the weather'')"
    by (simp add: isImageReq_def js_def canonicalize_def)
  have more: "isImageReq (js ''Please VISUALIZE it'')" "isImageReq (js ''re-CrEaTe that'')"
    "isImageReq (js ''Show Me'')"
    by (simp_all add: isImageReq_def js_def canonicalize_def)
  have t1: "textToSend (Some (js ''generate a sunset'')) r = js ''generate a sunset''"
    by (rule textToSend_Some) (simp add: js_def)
  have t2: "textToSend (Some (js ''what's the weather'')) r = js ''what's the weather''"
    by (rule textToSend_Some) (simp add: js_def)
  have a1: "trim (textToSend (Some (js ''generate a sunset'')) r) \<noteq> []"
    unfolding t1 by (rule generate_a_sunset_nonblank)
  have a2: "trim (textToSend (Some (js ''what's the weather'')) r) \<noteq> []"
    unfolding t2 by (rule whats_the_weather_nonblank)
  have g1: "take (Suc (length (calls w))) (calls (handleSend textOverride r e w)) =
           calls w @ [GenerateLeoImage (textToSend textOverride r)]"
    if "trim (textToSend textOverride r) \<noteq> [] \<and> isImageReq (textToSend textOverride r)"
    for textOverride
    using that by (simp add: handleSend_calls [OF _ assms])
  have g2: "calls (handleSend textOverride r e w) =
           calls w @ [ChatWithLeoStream (textToSend textOverride r) (history r)]"
    if "trim (textToSend textOverride r) \<noteq> [] \<and> \<not> isImageReq (textToSend textOverride r)"
    for textOverride
    using that by (simp add: handleSend_calls [OF _ assms])
  have c1: "take (Suc (length (calls w)))
         (calls (handleSend (Some (js ''generate a sunset'')) r e w)) =
         calls w @ [GenerateLeoImage (js ''generate a sunset'')]"
    using g1 [of "Some (js ''generate a sunset'')"] a1 img by (simp add: t1)
  have c2: "calls (handleSend (Some (js ''what's the weather'')) r e w) =
         calls w @ [ChatWithLeoStream (js ''what's the weather'') (history r)]"
    using g2 [of "Some (js ''what's the weather'')"] a2 plain by (simp add: t2)
  have c3: "messages (handleSend textOverride r e w) =
           messages (streamReply (textToSend textOverride r) r e
             (postUser (textToSend textOverride r) e w))
         \<and> leoState (handleSend textOverride r e w) =
           leoState (streamReply (textToSend textOverride r) r e
             (postUser (textToSend textOverride r) e w))
         \<and> input (handleSend textOverride r e w) =
           input (streamReply (textToSend textOverride r) r e
             (postUser (textToSend textOverride r) e w))
         \<and> last (calls (handleSend textOverride r e w)) =
           ChatWithLeoStream (textToSend textOverride r) (history r)"
    if b: "trim (textToSend textOverride r) \<noteq> [] \<and> isImageReq (textToSend textOverride r)
         \<and> (generateLeoImage e (textToSend textOverride r) = ImageRejected
            \<or> generateLeoImage e (textToSend textOverride r) = ImageResolved None
            \<or> generateLeoImage e (textToSend textOverride r) = ImageResolved (Some []))"
  proof -
    from b have nb: "trim (textToSend textOverride r) \<noteq> []"
      and none: "imageResult (textToSend textOverride r) e = None"
      by (simp_all add: imageResult_None_iff)
    have "last (calls (handleSend textOverride r e w)) =
           ChatWithLeoStream (textToSend textOverride r) (history r)"
      unfolding handleSend_calls [OF nb assms] using b by auto
    moreover have "messages (handleSend textOverride r e w) =
           messages (streamReply (textToSend textOverride r) r e
             (postUser (textToSend textOverride r) e w))"
      using none
      by (simp add: handleSend_messages [OF nb assms] streamReply_messages postUser_def
          world_ops Let_def)
    moreover have "leoState (handleSend textOverride r e w) =
           leoState (streamReply (textToSend textOverride r) r e
             (postUser (textToSend textOverride r) e w))"
      using none
      by (simp add: handleSend_leoState [OF nb assms] streamReply_leoState postUser_def
          world_ops Let_def)
    moreover have "input (handleSend textOverride r e w) =
           input (streamReply (textToSend textOverride r) r e
             (postUser (textToSend textOverride r) e w))"
      by (simp add: handleSend_input [OF nb assms] streamReply_input postUser_def world_ops)
    ultimately show ?thesis by blast
  qed
  from spec img plain more g1 [of textOverride] g2 [of textOverride] c1 c2 c3 show ?thesis
    by blast
qed

theorem image_intent_classification_and_fallback_witness:
  "\<not> isThinking (leoState (initialWorld 0))
   \<and> trim (textToSend (Some (js ''show me a cat'')) (initialWorld 0)) \<noteq> []
   \<and> isImageReq (textToSend (Some (js ''show me a cat'')) (initialWorld 0))
   \<and> generateLeoImage (fixedEnv 1000 2000 ImageRejected (ChatStream [js ''Hel'', js ''lo!''] Ends))
        (textToSend (Some (js ''show me a cat'')) (initialWorld 0)) = ImageRejected
   \<and> take (Suc (length (calls (initialWorld 0))))
        (calls (handleSend (Some (js ''show me a cat'')) (initialWorld 0)
          (fixedEnv 1000 2000 ImageRejected (ChatStream [js ''Hel'', js ''lo!''] Ends))
          (initialWorld 0))) =
      calls (initialWorld 0) @
        [GenerateLeoImage (textToSend (Some (js ''show me a cat'')) (initialWorld 0))]
   \<and> last (calls (handleSend (Some (js ''show me a cat'')) (initialWorld 0)
        (fixedEnv 1000 2000 ImageRejected (ChatStream [js ''Hel'', js ''lo!''] Ends))
        (initialWorld 0))) =
      ChatWithLeoStream (textToSend (Some (js ''show me a cat'')) (initialWorld 0))
        (history (initialWorld 0))
   \<and> trim (textToSend (Some (js ''hello there'')) (initialWorld 0)) \<noteq> []
   \<and> \<not> isImageReq (textToSend (Some (js ''hello there'')) (initialWorld 0))
   \<and> calls (handleSend (Some (js ''hello there'')) (initialWorld 0)
        (fixedEnv 1000 2000 ImageRejected (ChatStream [js ''Hel'', js ''lo!''] Ends))
        (initialWorld 0)) =
      calls (initialWorld 0) @
        [ChatWithLeoStream (textToSend (Some (js ''hello there'')) (initialWorld 0))
          (history (initialWorld 0))]"
proof -
  let ?e = "fixedEnv 1000 2000 ImageRejected (ChatStream [js ''Hel'', js ''lo!''] Ends)"
  let ?w = "initialWorld 0"
  have t: "textToSend (Some (js ''show me a cat'')) ?w = js ''show me a cat''"
    "textToSend (Some (js ''hello there'')) ?w = js ''hello there''"
    by (rule textToSend_Some, simp add: js_def)+
  have idle: "\<not> isThinking (leoState ?w)"
    by (simp add: initialWorld_def)
  have nonblank: "trim (textToSend (Some (js ''show me a cat'')) ?w) \<noteq> []"
    "trim (textToSend (Some (js ''hello there'')) ?w) \<noteq> []"
    unfolding t by (simp_all add: trim_def isWhiteSpace_def js_def)
  have img: "isImageReq (textToSend (Some (js ''show me a cat'')) ?w)"
    "\<not> isImageReq (textToSend (Some (js ''hello there'')) ?w)"
    unfolding t by (simp_all add: isImageReq_def js_def canonicalize_def)
  have rej: "generateLeoImage ?e (textToSend (Some (js ''show me a cat'')) ?w) = ImageRejected"
    by (simp add: fixedEnv_sel)
  note a = image_intent_classification_and_fallback [OF idle, of _ "Some (js ''show me a cat'')" ?w ?e]
  note b = image_intent_classification_and_fallback [OF idle, of _ "Some (js ''hello there'')" ?w ?e]
  from a nonblank(1) img(1) rej
  have a1: "take (Suc (length (calls ?w)))
        (calls (handleSend (Some (js ''show me a cat'')) ?w ?e ?w)) =
      calls ?w @ [GenerateLeoImage (textToSend (Some (js ''show me a cat'')) ?w)]"
    and a2: "last (calls (handleSend (Some (js ''show me a cat'')) ?w ?e ?w)) =
      ChatWithLeoStream (textToSend (Some (js ''show me a cat'')) ?w) (history ?w)"
    by blast+
  from b nonblank(2) img(2)
  have b1: "calls (handleSend (Some (js ''hello there'')) ?w ?e ?w) =
      calls ?w @ [ChatWithLeoStream (textToSend (Some (js ''hello there'')) ?w) (history ?w)]"
    by blast
  from idle nonblank img rej a1 a2 b1 show ?thesis by blast
qed

text \<open>
  C10. On the streaming path the chat request carries the submitted text as prompt and,
  as history, one entry for each of the last six messages (all of them when there are
  fewer) of the list the handler's render captured, in order: tagged \<open>model\<close> for a
  message of role leo and \<open>user\<close> for one of role user, with the message's text as its
  only part. When that render is up to date this is the list as it stood before the
  submission, so neither the user message just posted nor the placeholder is part of it.
  Before the chat request the handler calls nothing but the image service and the error
  console.
\<close>

theorem chat_history_is_last_six_before_submission:
  assumes "trim (textToSend textOverride r) \<noteq> []" and "\<not> isThinking (leoState r)"
    and "imageResult (textToSend textOverride r) e = None"
  shows "last (calls (handleSend textOverride r e w)) =
      ChatWithLeoStream (textToSend textOverride r)
        (map (\<lambda>m. Content (case role m of Leo \<Rightarrow> RoleModel | User \<Rightarrow> RoleUser) [text_msg m])
          (drop (length (messages r) - 6) (messages r)))
    \<and> set (butlast (drop (length (calls w)) (calls (handleSend textOverride r e w))))
        \<subseteq> {GenerateLeoImage (textToSend textOverride r), ConsoleError []}
    \<and> length (history r) = min 6 (length (messages r))
    \<and> (\<forall>i<length (history r).
          history r ! i =
            Content (case role (messages r ! (length (messages r) - 6 + i)) of
                       Leo \<Rightarrow> RoleModel | User \<Rightarrow> RoleUser)
              [text_msg (messages r ! (length (messages r) - 6 + i))])
    \<and> (messages r = messages w \<longrightarrow>
        last (calls (handleSend textOverride r e w)) =
          ChatWithLeoStream (textToSend textOverride r)
            (map (\<lambda>m. Content (case role m of Leo \<Rightarrow> RoleModel | User \<Rightarrow> RoleUser) [text_msg m])
              (drop (length (messages w) - 6) (messages w))))"
proof -
  have tc: "toContent = (\<lambda>m. Content (case role m of Leo \<Rightarrow> RoleModel | User \<Rightarrow> RoleUser) [text_msg m])"
    by (rule ext) (simp add: toContent_def split: role.split)
  have h: "history r =
      map (\<lambda>m. Content (case role m of Leo \<Rightarrow> RoleModel | User \<Rightarrow> RoleUser) [text_msg m])
        (drop (length (messages r) - 6) (messages r))"
    by (simp add: history_def slice_last_def tc)
  have a: "last (calls (handleSend textOverride r e w)) =
      ChatWithLeoStream (textToSend textOverride r) (history r)"
    unfolding handleSend_calls [OF assms(1,2)] using assms(3)
    by (simp add: imageResult_def split: image_outcome.splits option.splits if_splits)
  have b: "set (butlast (drop (length (calls w)) (calls (handleSend textOverride r e w))))
        \<subseteq> {GenerateLeoImage (textToSend textOverride r), ConsoleError []}"
    unfolding handleSend_calls [OF assms(1,2)] using assms(3)
    by (simp add: imageResult_def split: image_outcome.splits option.splits if_splits)
  have c: "length (history r) = min 6 (length (messages r))"
    by (simp add: h min_def)
  have d: "history r ! i =
            Content (case role (messages r ! (length (messages r) - 6 + i)) of
                       Leo \<Rightarrow> RoleModel | User \<Rightarrow> RoleUser)
              [text_msg (messages r ! (length (messages r) - 6 + i))]"
    if "i < length (history r)" for i
  proof -
    from that have "i < length (drop (length (messages r) - 6) (messages r))"
      by (simp add: h)
    then show ?thesis
      unfolding h by (simp only: nth_map nth_drop)
  qed
  from a b c d show ?thesis
    unfolding h by simp
qed

theorem chat_history_is_last_six_before_submission_witness:
  "trim (textToSend (Some (js ''hi''))
      ((initialWorld 0)\<lparr>messages := [msgOf Leo (js ''a''), msgOf User (js ''b''),
         msgOf Leo (js ''c''), msgOf User (js ''d''), msgOf Leo (js ''e''),
         msgOf User (js ''f''), msgOf User (js ''g''), msgOf Leo (js ''h'')]\<rparr>)) \<noteq> []
   \<and> \<not> isThinking (leoState
      ((initialWorld 0)\<lparr>messages := [msgOf Leo (js ''a''), msgOf User (js ''b''),
         msgOf Leo (js ''c''), msgOf User (js ''d''), msgOf Leo (js ''e''),
         msgOf User (js ''f''), msgOf User (js ''g''), msgOf Leo (js ''h'')]\<rparr>))
   \<and> imageResult (textToSend (Some (js ''hi''))
      ((initialWorld 0)\<lparr>messages := [msgOf Leo (js ''a''), msgOf User (js ''b''),
         msgOf Leo (js ''c''), msgOf User (js ''d''), msgOf Leo (js ''e''),
         msgOf User (js ''f''), msgOf User (js ''g''), msgOf Leo (js ''h'')]\<rparr>))
        (fixedEnv 1000 1001 ImageRejected (ChatStream [js ''Hel'', js ''lo!''] Ends)) = None
   \<and> last (calls (handleSend (Some (js ''hi''))
      ((initialWorld 0)\<lparr>messages := [msgOf Leo (js ''a''), msgOf User (js ''b''),
         msgOf Leo (js ''c''), msgOf User (js ''d''), msgOf Leo (js ''e''),
         msgOf User (js ''f''), msgOf User (js ''g''), msgOf Leo (js ''h'')]\<rparr>)
        (fixedEnv 1000 1001 ImageRejected (ChatStream [js ''Hel'', js ''lo!''] Ends))
      ((initialWorld 0)\<lparr>messages := [msgOf Leo (js ''a''), msgOf User (js ''b''),
         msgOf Leo (js ''c''), msgOf User (js ''d''), msgOf Leo (js ''e''),
         msgOf User (js ''f''), msgOf User (js ''g''), msgOf Leo (js ''h'')]\<rparr>))) =
      ChatWithLeoStream (js ''hi'')
        [Content RoleModel [js ''c''], Content RoleUser [js ''d''], Content RoleModel [js ''e''],
         Content RoleUser [js ''f''], Content RoleUser [js ''g''], Content RoleModel [js ''h'']]"
proof -
  let ?e = "fixedEnv 1000 1001 ImageRejected (ChatStream [js ''Hel'', js ''lo!''] Ends)"
  let ?w = "(initialWorld 0)\<lparr>messages := [msgOf Leo (js ''a''), msgOf User (js ''b''),
         msgOf Leo (js ''c''), msgOf User (js ''d''), msgOf Leo (js ''e''),
         msgOf User (js ''f''), msgOf User (js ''g''), msgOf Leo (js ''h'')]\<rparr>"
  have t: "textToSend (Some (js ''hi'')) ?w = js ''hi''"
    by (rule textToSend_Some) (simp add: js_def)
  have nonblank: "trim (textToSend (Some (js ''hi'')) ?w) \<noteq> []"
    unfolding t by (simp add: trim_def isWhiteSpace_def js_def)
  have idle: "\<not> isThinking (leoState ?w)"
    by (simp add: initialWorld_def)
  have noimg: "imageResult (textToSend (Some (js ''hi'')) ?w) ?e = None"
    unfolding t by (simp add: imageResult_def isImageReq_def js_def canonicalize_def)
  have hist: "map (\<lambda>m. Content (case role m of Leo \<Rightarrow> RoleModel | User \<Rightarrow> RoleUser) [text_msg m])
        (drop (length (messages ?w) - 6) (messages ?w)) =
      [Content RoleModel [js ''c''], Content RoleUser [js ''d''], Content RoleModel [js ''e''],
       Content RoleUser [js ''f''], Content RoleUser [js ''g''], Content RoleModel [js ''h'']]"
    by (simp add: msgOf_def)
  from chat_history_is_last_six_before_submission [OF nonblank idle noimg, of ?w]
  have "last (calls (handleSend (Some (js ''hi'')) ?w ?e ?w)) =
      ChatWithLeoStream (js ''hi'')
        [Content RoleModel [js ''c''], Content RoleUser [js ''d''], Content RoleModel [js ''e''],
         Content RoleUser [js ''f''], Content RoleUser [js ''g''], Content RoleModel [js ''h'']]"
    unfolding t hist by blast
  with nonblank idle noimg show ?thesis by blast
qed

text \<open>
  What the handler leaves alone, whatever it is given: it never shortens the list, and of
  a message already there it can change nothing but the text, and that only when the
  message's identifier equals the identifier drawn for the assistant message.
\<close>

lemma handleSend_touches_only_text_of_matching_id:
  assumes "i < length (messages w)"
  shows "length (messages w) \<le> length (messages (handleSend ov r e w))
    \<and> id_msg (messages (handleSend ov r e w) ! i) = id_msg (messages w ! i)
    \<and> role (messages (handleSend ov r e w) ! i) = role (messages w ! i)
    \<and> timestamp (messages (handleSend ov r e w) ! i) = timestamp (messages w ! i)
    \<and> sources (messages (handleSend ov r e w) ! i) = sources (messages w ! i)
    \<and> isSearching (messages (handleSend ov r e w) ! i) = isSearching (messages w ! i)
    \<and> imageUrl (messages (handleSend ov r e w) ! i) = imageUrl (messages w ! i)
    \<and> (id_msg (messages w ! i) \<noteq> toString (now3 e) \<longrightarrow>
         messages (handleSend ov r e w) ! i = messages w ! i)"
proof (cases "trim (textToSend ov r) = [] \<or> isThinking (leoState r)")
  case True
  then show ?thesis by (simp add: handleSend_def)
next
  case False
  then have acc: "trim (textToSend ov r) \<noteq> []" "\<not> isThinking (leoState r)"
    by simp_all
  show ?thesis
    using assms
    by (simp add: handleSend_messages [OF acc] Let_def nth_append setText_fields
        setText_other split: option.split)
qed

text \<open>
  C9. Identifiers are \<open>Date.now().toString()\<close>. On the text path nothing is awaited
  between drawing the user message's identifier and the assistant's, so the clock can
  give both the same value; line 182 then rewrites the text of the user message too.
  With the clock at 1000 throughout, text \<open>hi\<close> and the fragments \<open>Hel\<close>, \<open>lo!\<close>, both
  new messages end up reading \<open>Hello!\<close>.
\<close>

theorem streaming_overwrites_user_message_text:
  "map role (drop 1 (messages (handleSend (Some (js ''hi'')) (initialWorld 0)
      (fixedEnv 1000 1000 ImageRejected (ChatStream [js ''Hel'', js ''lo!''] Ends))
      (initialWorld 0)))) = [User, Leo]
   \<and> map text_msg (drop 1 (messages (handleSend (Some (js ''hi'')) (initialWorld 0)
      (fixedEnv 1000 1000 ImageRejected (ChatStream [js ''Hel'', js ''lo!''] Ends))
      (initialWorld 0)))) = [js ''Hello!'', js ''Hello!'']"
proof -
  let ?e = "fixedEnv 1000 1000 ImageRejected (ChatStream [js ''Hel'', js ''lo!''] Ends)"
  have t: "textToSend (Some (js ''hi'')) r = js ''hi''" for r :: world
    by (rule textToSend_Some) (simp add: js_def)
  have nonblank: "trim (textToSend (Some (js ''hi'')) (initialWorld 0)) \<noteq> []"
    unfolding t by (simp add: trim_def isWhiteSpace_def js_def)
  have idle: "\<not> isThinking (leoState (initialWorld 0))"
    by (simp add: initialWorld_def)
  have noimg: "imageResult (js ''hi'') ?e = None"
    by (simp add: imageResult_def isImageReq_def js_def canonicalize_def)
  have rcv: "received (chatWithLeoStream ?e x h) = [js ''Hel'', js ''lo!'']" for x h
    by (simp add: fixedEnv_def received_def)
  have ids: "now3 ?e = 1000" "now1 ?e = 1000"
    by (simp_all add: fixedEnv_def)
  have hello: "js ''Hel'' @ js ''lo!'' = js ''Hello!''"
    by (simp add: js_def)
  have ms: "messages (handleSend (Some (js ''hi'')) (initialWorld 0) ?e (initialWorld 0)) =
      map (setText (toString 1000) (js ''Hello!''))
        ([welcomeMsg 0] @ [userMsg (js ''hi'') ?e, leoMsg ?e])"
    using handleSend_messages [OF nonblank idle, of ?e "initialWorld 0"]
    by (simp add: t noimg rcv ids hello initialWorld_def Let_def)
  have u: "setText (toString 1000) x (userMsg (js ''hi'') ?e) =
      (userMsg (js ''hi'') ?e)\<lparr>text_msg := x\<rparr>" for x
    by (simp add: setText_def userMsg_def ids)
  have l: "setText (toString 1000) x (leoMsg ?e) = (leoMsg ?e)\<lparr>text_msg := x\<rparr>" for x
    by (simp add: setText_def leoMsg_def ids)
  show ?thesis
    unfolding ms by (simp add: u l) (simp add: userMsg_def leoMsg_def)
qed

subsection \<open>Playback scheduling\<close>
















subsection \<open>Interruption\<close>

text \<open>
  What the interruption branch achieves, for any session that began with nothing
  scheduled and any order of callback segments: right after it the set of active sources
  is empty, the counter is zero, no source was added, exactly the sources that were active
  have been stopped, every source started so far is either stopped or had reported its
  end, and none of them is active again whatever runs later.
\<close>

lemma sessionInv_deliver: "sessionInv w \<Longrightarrow> sessionInv (deliver rnd ev w)"
proof (cases ev)
  case (OnMessage msg)
  assume "sessionInv w"
  with OnMessage show ?thesis
    by (auto simp add: sessionInv_def onmessage_def split: option.split)
next
  case (Decoded d now)
  assume "sessionInv w"
  with Decoded show ?thesis
    by (auto simp add: sessionInv_def onmessage_decoded_def setLeoState_def Let_def
        nth_append less_Suc_eq)
next
  case (Ended k)
  assume "sessionInv w"
  with Ended show ?thesis
    by (auto simp add: sessionInv_def onended_def setLeoState_def Let_def)
qed (auto simp add: sessionInv_def onopen_def onerror_def onclose_def setLeoState_def logCall_def)

lemma sessionInv_run: "sessionInv w \<Longrightarrow> sessionInv (run rnd evs w)"
proof (induction evs arbitrary: w)
  case Nil
  then show ?case by (simp add: run_def)
next
  case (Cons ev evs)
  from Cons.IH [OF sessionInv_deliver [OF Cons.prems, of rnd ev]] show ?case
    by (simp add: run_def)
qed

lemma ended_deliver: "ended w \<subseteq> ended (deliver rnd ev w)"
  by (cases ev)
    (auto simp add: onmessage_def onmessage_decoded_def onended_def onopen_def onerror_def
      onclose_def setLeoState_def logCall_def Let_def split: option.split)

lemma ended_run: "ended w \<subseteq> ended (run rnd evs w)"
proof (induction evs arbitrary: w)
  case Nil
  show ?case by (simp add: run_def)
next
  case (Cons ev evs)
  from ended_deliver [of w rnd ev] Cons.IH [of "deliver rnd ev w"] show ?case
    by (auto simp add: run_def)
qed

lemma stopped_deliver: "stopped w \<subseteq> stopped (deliver rnd ev w)"
  by (cases ev)
    (auto simp add: onmessage_def onmessage_decoded_def onended_def onopen_def onerror_def
      onclose_def setLeoState_def logCall_def Let_def split: option.split)

lemma stopped_run: "stopped w \<subseteq> stopped (run rnd evs w)"
proof (induction evs arbitrary: w)
  case Nil
  show ?case by (simp add: run_def)
next
  case (Cons ev evs)
  from stopped_deliver [of w rnd ev] Cons.IH [of "deliver rnd ev w"] show ?case
    by (auto simp add: run_def)
qed

lemma interruption_stops_all_started:
  assumes "interrupted msg"
    and "started w0 = []" and "activeSources w0 = {}" and "stopped w0 = {}" and "ended w0 = {}"
  shows "activeSources (onmessage msg (run rnd evs w0)) = {}
    \<and> nextStartTimeRef (onmessage msg (run rnd evs w0)) = 0
    \<and> started (onmessage msg (run rnd evs w0)) = started (run rnd evs w0)
    \<and> stopped (onmessage msg (run rnd evs w0)) =
         stopped (run rnd evs w0) \<union> activeSources (run rnd evs w0)
    \<and> (\<forall>k<length (started (run rnd evs w0)).
          k \<in> stopped (onmessage msg (run rnd evs w0)) \<or> k \<in> ended (run rnd evs w0))
    \<and> (\<forall>k<length (started (run rnd evs w0)).
          k \<notin> activeSources (run rnd later (onmessage msg (run rnd evs w0))))"
proof -
  let ?w = "run rnd evs w0" and ?w' = "onmessage msg (run rnd evs w0)"
  from assms(2-5) have "sessionInv w0"
    by (simp add: sessionInv_def)
  then have inv: "sessionInv ?w"
    by (rule sessionInv_run)
  have step: "?w' = deliver rnd (OnMessage msg) ?w"
    by simp
  have inv': "sessionInv ?w'"
    unfolding step by (rule sessionInv_deliver [OF inv])
  have a: "activeSources ?w' = {}" "nextStartTimeRef ?w' = 0" "started ?w' = started ?w"
    "stopped ?w' = stopped ?w \<union> activeSources ?w"
    using assms(1) by (simp_all add: onmessage_def)
  have b: "\<forall>k<length (started ?w). k \<in> stopped ?w' \<or> k \<in> ended ?w"
    using inv a(4) by (auto simp add: sessionInv_def)
  have c: "k \<notin> activeSources (run rnd later ?w')" if k: "k < length (started ?w)" for k
  proof -
    from b k have "k \<in> stopped ?w' \<or> k \<in> ended ?w" by blast
    then show ?thesis
    proof
      assume "k \<in> stopped ?w'"
      with stopped_run [of ?w' rnd later] have "k \<in> stopped (run rnd later ?w')" by blast
      with sessionInv_run [OF inv', of rnd later] show ?thesis
        by (auto simp add: sessionInv_def)
    next
      assume "k \<in> ended ?w"
      with ended_deliver [of ?w rnd "OnMessage msg"] ended_run [of ?w' rnd later]
      have "k \<in> ended (run rnd later ?w')" by auto
      with sessionInv_run [OF inv', of rnd later] show ?thesis
        by (auto simp add: sessionInv_def)
    qed
  qed
  from a b c show ?thesis by blast
qed

text \<open>
  C3. \<open>onmessage\<close> checks for an interruption only before its \<^verbatim>\<open>await\<close>. A frame that
  was received before the interruption and is still being decoded when the interruption
  is handled resumes after the reset: its source is started from the zeroed counter,
  enters \<open>activeSources\<close> and is never stopped. Here a first frame is playing, a second
  one is received and suspended (\<open>decoding\<close> is 1), the interruption stops source 0 and
  zeroes the counter, and then the second frame's decode completes with a 3 second
  buffer at clock 2: source 1 is started at 2 and is the one active source.
\<close>

theorem frame_in_flight_survives_interruption:
  "decoding (run toQuarter [OnMessage audioFrame, Decoded 10 0, OnMessage audioFrame]
      (initAudioContexts (initialWorld 0))) = 1
   \<and> started (run toQuarter [OnMessage audioFrame, Decoded 10 0, OnMessage audioFrame]
      (initAudioContexts (initialWorld 0))) = [(0, 10)]
   \<and> activeSources (run toQuarter
      [OnMessage audioFrame, Decoded 10 0, OnMessage audioFrame, OnMessage interruption]
      (initAudioContexts (initialWorld 0))) = {}
   \<and> nextStartTimeRef (run toQuarter
      [OnMessage audioFrame, Decoded 10 0, OnMessage audioFrame, OnMessage interruption]
      (initAudioContexts (initialWorld 0))) = 0
   \<and> started (run toQuarter
      [OnMessage audioFrame, Decoded 10 0, OnMessage audioFrame, OnMessage interruption,
       Decoded 3 2]
      (initAudioContexts (initialWorld 0))) = [(0, 10), (2, 3)]
   \<and> activeSources (run toQuarter
      [OnMessage audioFrame, Decoded 10 0, OnMessage audioFrame, OnMessage interruption,
       Decoded 3 2]
      (initAudioContexts (initialWorld 0))) = {1}
   \<and> stopped (run toQuarter
      [OnMessage audioFrame, Decoded 10 0, OnMessage audioFrame, OnMessage interruption,
       Decoded 3 2]
      (initAudioContexts (initialWorld 0))) = {0}"
  by (simp add: run_def initAudioContexts_def initialWorld_def audioFrame_def interruption_def
      js_def onmessage_def onmessage_decoded_def setLeoState_def Let_def addDouble_def
      toQuarter_def)

subsection \<open>Microphone denial\<close>

text \<open>
  C8. When the handler's render is not live, the client is obtained and the microphone
  request is rejected, \<open>toggleLive\<close> returns normally: no exception leaves it, the
  rejection is logged on the error console, \<open>connect\<close> is never called, and flags,
  session handle, messages and playback state are what they were, so a live flag that
  was false is still false.
\<close>

theorem mic_denied_is_caught:
  assumes "\<not> isLive (leoState r)"
    and "getGeminiClient e = ClientReturns" and "getUserMedia e = Denied"
  shows "case toggleLive r e w of
           Inl x \<Rightarrow> False
         | Inr w' \<Rightarrow>
             leoState w' = leoState w
             \<and> (\<not> isLive (leoState w) \<longrightarrow> \<not> isLive (leoState w'))
             \<and> liveSessionRef w' = liveSessionRef w
             \<and> messages w' = messages w
             \<and> started w' = started w \<and> nextStartTimeRef w' = nextStartTimeRef w
             \<and> activeSources w' = activeSources w
             \<and> calls w' = calls w @
                  [GetGeminiClient, GetUserMedia, ConsoleError (js ''Mic Access Failed:'')]"
  using assms
  by (simp add: toggleLive_def logCall_def initAudioContexts_def Let_def)

theorem mic_denied_is_caught_witness:
  "\<not> isLive (leoState (initialWorld 0))
   \<and> getGeminiClient \<lparr>getGeminiClient = ClientReturns, getUserMedia = Denied,
        liveConnect = ConnectReturns\<rparr> = ClientReturns
   \<and> getUserMedia \<lparr>getGeminiClient = ClientReturns, getUserMedia = Denied,
        liveConnect = ConnectReturns\<rparr> = Denied
   \<and> (case toggleLive (initialWorld 0)
          \<lparr>getGeminiClient = ClientReturns, getUserMedia = Denied, liveConnect = ConnectReturns\<rparr>
          (initialWorld 0) of
        Inl x \<Rightarrow> False
      | Inr w' \<Rightarrow> \<not> isLive (leoState w') \<and> \<not> liveSessionRef w'
          \<and> calls w' = [GetGeminiClient, GetUserMedia, ConsoleError (js ''Mic Access Failed:'')])"
proof -
  let ?e = "\<lparr>getGeminiClient = ClientReturns, getUserMedia = Denied, liveConnect = ConnectReturns\<rparr>"
  have idle: "\<not> isLive (leoState (initialWorld 0))"
    by (simp add: initialWorld_def)
  have g: "getGeminiClient ?e = ClientReturns" and m: "getUserMedia ?e = Denied"
    by simp_all
  have z: "\<not> liveSessionRef (initialWorld 0)" "calls (initialWorld 0) = []"
    by (simp_all add: initialWorld_def)
  from mic_denied_is_caught [OF idle g m, of "initialWorld 0"] idle z
  show ?thesis by (auto split: sum.splits)
qed

end
